theory Spec2Isabelle
  imports Main "HOL-Library.Word"
begin

unbundle bit_operations_syntax

section \<open>genaJam MIDI file player: data model\<close>

text \<open>
  The sketch \<^verbatim>\<open>genajam_midi_file_player.ino\<close> is built for the ATmega1284 (an AVR):
  \<^verbatim>\<open>int\<close> and \<^verbatim>\<open>size_t\<close> are 16 bits wide, \<^verbatim>\<open>uint8_t\<close> is \<open>8 word\<close> and
  \<^verbatim>\<open>uint16_t\<close> is \<open>16 word\<close>. It is compiled with \<^verbatim>\<open>DEBUG_ON 0\<close>, so every
  \<^verbatim>\<open>DEBUG\<close> and \<^verbatim>\<open>DEBUGX\<close> expands to nothing.
\<close>

type_synonym byte = "8 word"

text \<open>The enumerated types of the state machines, in the order of the source.\<close>

datatype lcd_state = LSBegin | LSSelect | LSShowFile
datatype midi_state = MSBegin | MSLoad | MSOpen | MSProcess | MSClose
datatype seq_state = LCDSeq | MIDISeq

text \<open>
  \<^verbatim>\<open>midi_event\<close> of the MD_MIDIFile library: \<^verbatim>\<open>track\<close>, \<^verbatim>\<open>channel\<close>,
  \<^verbatim>\<open>size\<close> (the number of valid data bytes) and the array \<^verbatim>\<open>data\<close>. The array
  is the list of its initialised bytes; a read past the end of that list is the fault
  \<open>OutOfBounds\<close>.
\<close>

record midi_event =
  track :: byte
  channel :: byte
  size_ev :: byte
  data :: "byte list"

text \<open>
  A call that does not return an ordinary result: \<open>Halted\<close> is a loop that never
  ends, such as \<^verbatim>\<open>while (fStop) ;\<close> in \<^verbatim>\<open>LCDErrMessage\<close>, \<open>OutOfBounds\<close> an
  access outside an array: a read outside an event's data, or a \<^verbatim>\<open>sprintf\<close> that
  writes past the end of its buffer.
\<close>

datatype fault = Halted | OutOfBounds

text \<open>
  The display receives \<^verbatim>\<open>setCursor(col, row)\<close> and single characters
  (\<^verbatim>\<open>print\<close> of a string writes its characters one by one).
\<close>

datatype lcd_op = SetCursor byte byte | Write char

text \<open>
  The sequencer \<^verbatim>\<open>SMF\<close> is a library object: the machine records the calls that
  change its state (\<^verbatim>\<open>load\<close>, \<^verbatim>\<open>getNextEvent\<close>, \<^verbatim>\<open>restart\<close>,
  \<^verbatim>\<open>pause\<close>, \<^verbatim>\<open>close\<close>) in the order made, and its answers are inputs.
\<close>

datatype smf_call = Load string | GetNextEvent | Restart | Pause bool | Close

text \<open>The play list file object: \<^verbatim>\<open>isOpen()\<close> and the read position.\<close>

record sdfile =
  isOpen :: bool
  curPosition :: nat

text \<open>
  The globals, the \<^verbatim>\<open>static\<close> locals of \<^verbatim>\<open>lcdFSM\<close>, \<^verbatim>\<open>midiFSM\<close> and
  \<^verbatim>\<open>loop\<close>, and what the collaborators have received so far: the contents of
  \<^verbatim>\<open>PLAYLIST.TXT\<close> on the card, the display operations, the bytes written to
  \<^verbatim>\<open>Serial1\<close>, the sequencer calls and the milliseconds spent in \<^verbatim>\<open>delay\<close>.
\<close>

record machine =
  plCount :: "16 word"
  fname :: string
  s_lcdFSM :: lcd_state
  plIndex :: byte
  plFile :: sdfile
  s_midiFSM :: midi_state
  s_loop :: seq_state
  playlist_file :: string
  LCD :: "lcd_op list"
  Serial1 :: "byte list"
  SMF :: "smf_call list"
  delayed :: nat

text \<open>
  What the collaborators answer during one call of \<^verbatim>\<open>loop\<close>, to the calls it
  makes: \<open>BTN inp i\<close> is \<^verbatim>\<open>BTN[i]->read() == MD_UISwitch::KEY_PRESS\<close> (0 up,
  1 down, 2 right, 3 left, 4 select), \<open>plFile_open\<close> the result of opening the play
  list file, \<open>SMF_load\<close> the \<^verbatim>\<open>int\<close> returned by \<^verbatim>\<open>SMF.load\<close>, and
  \<open>SMF_events\<close> the events the sequencer hands to the MIDI handler during
  \<^verbatim>\<open>getNextEvent()\<close>.
\<close>

record inputs =
  BTN :: "nat \<Rightarrow> bool"
  plFile_open :: bool
  SMF_load :: int
  SMF_isEOF :: bool
  SMF_getNextEvent :: bool
  SMF_events :: "midi_event list"
  SMF_getTempo :: "16 word"
  SMF_getTimeSignature :: "16 word"

definition FNAME_SIZE :: nat where
  "FNAME_SIZE = 13"

definition LCD_COLS :: byte where
  "LCD_COLS = 16"

text \<open>\<^verbatim>\<open>MD_MIDIFile::E_OK\<close>, the library's code for a successful load.\<close>

definition E_OK :: int where
  "E_OK = 0"

section \<open>MIDI callback\<close>

text \<open>\<^verbatim>\<open>Serial1.write(buf + off, n)\<close>: the \<open>n\<close> bytes of the array from \<open>off\<close> on.\<close>

definition buf_read :: "byte list \<Rightarrow> nat \<Rightarrow> nat \<Rightarrow> fault + byte list" where
  "buf_read buf off n =
     (if off + n \<le> length buf then Inr (take n (drop off buf)) else Inl OutOfBounds)"

text \<open>
  \<^verbatim>\<open>pev->size-1\<close> is computed in \<^verbatim>\<open>int\<close> and converted to the 16-bit
  \<^verbatim>\<open>size_t\<close> of \<^verbatim>\<open>write\<close>: \<open>-1\<close> becomes \<open>65535\<close>.
\<close>

definition size_minus_1 :: "byte \<Rightarrow> nat" where
  "size_minus_1 sz = nat ((uint sz - 1) mod 2 ^ 16)"

text \<open>
  The loop that ends \<^verbatim>\<open>midiCallback\<close>,
  \<^verbatim>\<open>for (uint8_t i=0; i<=pev->size; i++)\<close>, whose body is empty without the debug
  output: it counts in \<^verbatim>\<open>uint8_t\<close>, and with a size of 255 the test never fails.
\<close>

partial_function (option) debug_loop :: "byte \<Rightarrow> byte \<Rightarrow> unit option" where
  "debug_loop i sz = (if i \<le> sz then debug_loop (i + 1) sz else Some ())"

text \<open>
  \<^verbatim>\<open>midiCallback\<close> with \<^verbatim>\<open>DEBUG_ON 0\<close>: the result is \<^verbatim>\<open>Serial1\<close>'s output
  with the bytes of this event appended.
\<close>

definition midiCallback :: "midi_event \<Rightarrow> byte list \<Rightarrow> fault + byte list" where
  "midiCallback pev ser =
     (case data pev of
        [] \<Rightarrow> Inl OutOfBounds
      | d0 # _ \<Rightarrow>
          (case
             (if 0x80 \<le> d0 \<and> d0 \<le> 0xe0 then
                (case buf_read (data pev) 1 (size_minus_1 (size_ev pev)) of
                   Inl e \<Rightarrow> Inl e
                 | Inr rest \<Rightarrow> Inr (ser @ [d0 OR channel pev] @ rest))
              else
                (case buf_read (data pev) 0 (unat (size_ev pev)) of
                   Inl e \<Rightarrow> Inl e
                 | Inr bs \<Rightarrow> Inr (ser @ bs)))
           of
             Inl e \<Rightarrow> Inl e
           | Inr ser1 \<Rightarrow>
               (case debug_loop 0 (size_ev pev) of
                  None \<Rightarrow> Inl Halted
                | Some u \<Rightarrow> Inr ser1)))"

text \<open>The handler applied to each event of a list in turn.\<close>

fun midiCallbacks :: "midi_event list \<Rightarrow> byte list \<Rightarrow> fault + byte list" where
  "midiCallbacks [] ser = Inr ser"
| "midiCallbacks (ev # evs) ser =
     (case midiCallback ev ser of Inl e \<Rightarrow> Inl e | Inr ser' \<Rightarrow> midiCallbacks evs ser')"

text \<open>
  The loop of \<^verbatim>\<open>midiSilence\<close>:
  \<^verbatim>\<open>for (ev.channel = 0; ev.channel < 16; ev.channel++) midiCallback(&ev);\<close>
\<close>

function midiSilence_loop :: "midi_event \<Rightarrow> byte list \<Rightarrow> fault + byte list" where
  "midiSilence_loop ev ser =
     (if channel ev < 16 then
        (case midiCallback ev ser of
           Inl e \<Rightarrow> Inl e
         | Inr ser' \<Rightarrow> midiSilence_loop (ev\<lparr>channel := channel ev + 1\<rparr>) ser')
      else Inr ser)"
  by pat_completeness auto
termination
proof (relation "measure (\<lambda>(ev, ser). 16 - unat (channel ev))")
  show "wf (measure (\<lambda>(ev, ser). 16 - unat (channel ev)))"
    by simp
next
  fix ev :: midi_event and ser x2 :: "byte list"
  assume lt: "channel ev < 16"
  then have "unat (channel ev) < 16"
    by (simp add: word_less_nat_alt)
  moreover from this have "unat (channel ev + 1) = unat (channel ev) + 1"
    by (simp add: unat_word_ariths)
  ultimately show "((ev\<lparr>channel := channel ev + 1\<rparr>, x2), ev, ser)
      \<in> measure (\<lambda>(ev, ser). 16 - unat (channel ev))"
    by simp
qed

text \<open>
  \<^verbatim>\<open>midiSilence\<close>: the event \<^verbatim>\<open>0xb0, 120, 0\<close> (all sound off) of size 3, sent
  on every channel. The source leaves \<^verbatim>\<open>ev.track\<close> uninitialised; the handler never
  reads it, and it is 0 here.
\<close>

definition midiSilence :: "byte list \<Rightarrow> fault + byte list" where
  "midiSilence ser =
     midiSilence_loop \<lparr>track = 0, channel = 0, size_ev = 3, data = [0xb0, 120, 0]\<rparr> ser"

section \<open>Display helpers\<close>

text \<open>A C string: the characters before the first NUL.\<close>

definition c_str :: "string \<Rightarrow> string" where
  "c_str buf = takeWhile (\<lambda>c. c \<noteq> CHR 0x00) buf"

text \<open>\<^verbatim>\<open>while (c++ < LCD_COLS) LCD.write(' ');\<close> on the \<^verbatim>\<open>uint8_t\<close> column.\<close>

function clrEol_loop :: "byte \<Rightarrow> lcd_op list \<Rightarrow> lcd_op list" where
  "clrEol_loop c lcd =
     (if c < LCD_COLS then clrEol_loop (c + 1) (lcd @ [Write CHR '' '']) else lcd)"
  by pat_completeness auto
termination
proof (relation "measure (\<lambda>(c, lcd). 16 - unat c)")
  show "wf (measure (\<lambda>(c, lcd). 16 - unat c))"
    by simp
next
  fix c :: byte and lcd :: "lcd_op list"
  assume "c < LCD_COLS"
  then have "unat c < 16"
    by (simp add: word_less_nat_alt LCD_COLS_def)
  moreover from this have "unat (c + 1) = unat c + 1"
    by (simp add: unat_word_ariths)
  ultimately show "((c + 1, lcd @ [Write CHR '' '']), c, lcd) \<in> measure (\<lambda>(c, lcd). 16 - unat c)"
    by simp
qed

text \<open>
  \<^verbatim>\<open>LCDMessage(r, c, msg, clrEol)\<close>; \<^verbatim>\<open>c += strlen(msg)\<close> is \<^verbatim>\<open>uint8_t\<close>
  arithmetic.
\<close>

definition LCDMessage :: "byte \<Rightarrow> byte \<Rightarrow> string \<Rightarrow> bool \<Rightarrow> lcd_op list \<Rightarrow> lcd_op list" where
  "LCDMessage r c msg clrEol lcd =
     (let lcd1 = lcd @ SetCursor c r # map Write msg
      in if clrEol then clrEol_loop (c + of_nat (length msg)) lcd1 else lcd1)"

text \<open>
  \<^verbatim>\<open>LCDErrMessage(msg, fStop)\<close>: the message on row 1, then either the endless loop
  or a pause of two seconds.
\<close>

definition LCDErrMessage :: "string \<Rightarrow> bool \<Rightarrow> machine \<Rightarrow> fault + machine" where
  "LCDErrMessage msg fStop m =
     (let m1 = m\<lparr>LCD := LCDMessage 1 0 msg True (LCD m)\<rparr>
      in if fStop then Inl Halted else Inr (m1\<lparr>delayed := delayed m1 + 2000\<rparr>))"

text \<open>The conversions of \<^verbatim>\<open>sprintf\<close> the sketch uses: \<^verbatim>\<open>%d\<close>, \<^verbatim>\<open>%3d\<close>, \<^verbatim>\<open>%03d\<close>.\<close>

fun digits :: "nat \<Rightarrow> string" where
  "digits n =
     (if n < 10 then [''0123456789'' ! n]
      else digits (n div 10) @ [''0123456789'' ! (n mod 10)])"

definition fmt_d :: "int \<Rightarrow> string" where
  "fmt_d v = (if v < 0 then CHR ''-'' # digits (nat (- v)) else digits (nat v))"

definition fmt_3d :: "int \<Rightarrow> string" where
  "fmt_3d v = (let s = fmt_d v in replicate (3 - length s) CHR '' '' @ s)"

definition fmt_03d :: "int \<Rightarrow> string" where
  "fmt_03d v =
     (if v < 0 then
        (let ds = digits (nat (- v)) in CHR ''-'' # replicate (2 - length ds) CHR ''0'' @ ds)
      else (let ds = digits (nat v) in replicate (3 - length ds) CHR ''0'' @ ds))"

section \<open>Play list file\<close>

text \<open>
  \<^verbatim>\<open>SdFile::seekSet\<close> and \<^verbatim>\<open>SdFile::read\<close> on a file with the given contents:
  a seek past the end of the file fails and leaves the position, a read returns the
  bytes that are there, at most \<open>n\<close>.
\<close>

definition seekSet :: "nat \<Rightarrow> string \<Rightarrow> sdfile \<Rightarrow> sdfile" where
  "seekSet pos contents f =
     (if isOpen f \<and> pos \<le> length contents then f\<lparr>curPosition := pos\<rparr> else f)"

definition read_file :: "nat \<Rightarrow> string \<Rightarrow> sdfile \<Rightarrow> string \<times> sdfile" where
  "read_file n contents f =
     (if isOpen f then
        (let got = take n (drop (curPosition f) contents)
         in (got, f\<lparr>curPosition := curPosition f + length got\<rparr>))
      else ([], f))"

text \<open>Record \<open>i\<close> of the play list file: the 13 bytes at offset \<open>13 * i\<close>.\<close>

definition playlist_entry :: "string \<Rightarrow> nat \<Rightarrow> string" where
  "playlist_entry contents i = take FNAME_SIZE (drop (FNAME_SIZE * i) contents)"

section \<open>Finite state machines\<close>

text \<open>
  \<^verbatim>\<open>lcdFSM\<close>. \<^verbatim>\<open>plIndex\<close> is a \<^verbatim>\<open>uint8_t\<close> and \<^verbatim>\<open>plCount\<close> a
  \<^verbatim>\<open>uint16_t\<close>: \<^verbatim>\<open>plCount - 1\<close> is 16-bit unsigned arithmetic, the comparisons
  widen \<^verbatim>\<open>plIndex\<close>, and \<^verbatim>\<open>plIndex = plCount - 1\<close> keeps the low 8 bits.
\<close>

definition lcdFSM :: "inputs \<Rightarrow> seq_state \<Rightarrow> machine \<Rightarrow> fault + seq_state \<times> machine" where
  "lcdFSM inp curSS m =
     (case s_lcdFSM m of
        LSBegin \<Rightarrow>
          (let m1 = m\<lparr>LCD := LCDMessage 0 0 ''Select play:'' True (LCD m)\<rparr>
           in if \<not> isOpen (plFile m1) then
                (if \<not> plFile_open inp then
                   (case LCDErrMessage ''PL file no open'' True m1 of
                      Inl e \<Rightarrow> Inl e
                    | Inr m2 \<Rightarrow> Inr (curSS, m2\<lparr>s_lcdFSM := LSShowFile\<rparr>))
                 else Inr (curSS, m1\<lparr>plFile := \<lparr>isOpen = True, curPosition = 0\<rparr>,
                                      s_lcdFSM := LSShowFile\<rparr>))
              else Inr (curSS, m1\<lparr>s_lcdFSM := LSShowFile\<rparr>))
      | LSShowFile \<Rightarrow>
          (let f1 = seekSet (FNAME_SIZE * unat (plIndex m)) (playlist_file m) (plFile m);
               (got, f2) = read_file FNAME_SIZE (playlist_file m) f1;
               buf = got @ drop (length got) (fname m);
               lcd1 = LCDMessage 1 0 (c_str buf) True (LCD m);
               lcd2 = lcd1 @
                 [SetCursor (LCD_COLS - 2) 1,
                  Write (if plIndex m = 0 then CHR '' '' else CHR ''<''),
                  Write (if (ucast (plIndex m) :: 16 word) = plCount m - 1
                         then CHR '' '' else CHR ''>'')]
           in Inr (curSS, m\<lparr>fname := buf, plFile := f2, LCD := lcd2, s_lcdFSM := LSSelect\<rparr>))
      | LSSelect \<Rightarrow>
          if BTN inp 4 then Inr (MIDISeq, m\<lparr>s_lcdFSM := LSBegin\<rparr>)
          else if BTN inp 3 then
            Inr (curSS, m\<lparr>plIndex := (if plIndex m \<noteq> 0 then plIndex m - 1 else plIndex m),
                          s_lcdFSM := LSShowFile\<rparr>)
          else if BTN inp 0 then Inr (curSS, m\<lparr>plIndex := 0, s_lcdFSM := LSShowFile\<rparr>)
          else if BTN inp 1 then
            Inr (curSS, m\<lparr>plIndex := ucast (plCount m - 1), s_lcdFSM := LSShowFile\<rparr>)
          else if BTN inp 2 then
            Inr (curSS, m\<lparr>plIndex := (if (ucast (plIndex m) :: 16 word) \<noteq> plCount m - 1
                                        then plIndex m + 1 else plIndex m),
                          s_lcdFSM := LSShowFile\<rparr>)
          else Inr (curSS, m))"

text \<open>
  The first half of \<^verbatim>\<open>case MSProcess\<close>: at the end of the data the state becomes
  \<^verbatim>\<open>MSClose\<close>; otherwise \<^verbatim>\<open>getNextEvent()\<close> runs, the sequencer hands its
  events to \<^verbatim>\<open>midiCallback\<close>, and on a true result tempo and time signature are
  displayed. The \<^verbatim>\<open>uint16_t\<close> arguments are printed by \<^verbatim>\<open>%d\<close> as \<^verbatim>\<open>int\<close>.
\<close>

definition MSProcess_play :: "inputs \<Rightarrow> machine \<Rightarrow> fault + machine" where
  "MSProcess_play inp m =
     (if \<not> SMF_isEOF inp then
        (case midiCallbacks (SMF_events inp) (Serial1 m) of
           Inl e \<Rightarrow> Inl e
         | Inr ser \<Rightarrow>
             (let m1 = m\<lparr>SMF := SMF m @ [GetNextEvent], Serial1 := ser\<rparr>
              in if SMF_getNextEvent inp then
                   (let sBuf = ''T'' @ fmt_3d (sint (SMF_getTempo inp));
                        lcd1 = LCDMessage 0 (LCD_COLS - of_nat (length sBuf)) sBuf True (LCD m1);
                        sBuf2 = ''S'' @ fmt_d (sint (drop_bit 8 (SMF_getTimeSignature inp)))
                                @ ''/'' @ fmt_d (sint (SMF_getTimeSignature inp AND 0xf));
                        lcd2 = LCDMessage 1 (LCD_COLS - of_nat (length sBuf2)) sBuf2 True lcd1
                    in Inr (m1\<lparr>LCD := lcd2\<rparr>))
                 else Inr m1))
      else Inr (m\<lparr>s_midiFSM := MSClose\<rparr>))"

text \<open>
  The second half of \<^verbatim>\<open>case MSProcess\<close>, the key scan: left rewinds, right stops,
  up pauses, down resumes.
\<close>

definition MSProcess_keys :: "inputs \<Rightarrow> seq_state \<Rightarrow> machine \<Rightarrow> fault + seq_state \<times> machine" where
  "MSProcess_keys inp curSS m =
     (if BTN inp 3 then
        (case midiSilence (Serial1 m) of
           Inl e \<Rightarrow> Inl e
         | Inr ser \<Rightarrow> Inr (curSS, m\<lparr>Serial1 := ser, SMF := SMF m @ [Restart]\<rparr>))
      else if BTN inp 2 then Inr (curSS, m\<lparr>s_midiFSM := MSClose\<rparr>)
      else if BTN inp 0 then
        (case midiSilence (Serial1 m) of
           Inl e \<Rightarrow> Inl e
         | Inr ser \<Rightarrow> Inr (curSS, m\<lparr>SMF := SMF m @ [Pause True], Serial1 := ser\<rparr>))
      else if BTN inp 1 then Inr (curSS, m\<lparr>SMF := SMF m @ [Pause False]\<rparr>)
      else Inr (curSS, m))"

text \<open>
  \<^verbatim>\<open>midiFSM\<close>. \<^verbatim>\<open>MSOpen\<close> has no case of its own and takes the default. In
  \<^verbatim>\<open>MSLoad\<close> the error text is printed into \<^verbatim>\<open>char aErr[16]\<close>, which holds 15
  characters and the terminating NUL. (The texts printed into \<^verbatim>\<open>sBuf[10]\<close> in
  \<^verbatim>\<open>MSProcess\<close> have at most 7 characters.)
\<close>

definition midiFSM :: "inputs \<Rightarrow> seq_state \<Rightarrow> machine \<Rightarrow> fault + seq_state \<times> machine" where
  "midiFSM inp curSS m =
     (case s_midiFSM m of
        MSBegin \<Rightarrow>
          Inr (curSS, m\<lparr>LCD := LCDMessage 1 0 (''K  >  '' @ [CHR 0xDB]) True
                                (LCDMessage 0 0 (''   '' @ [CHR 0x01]) True (LCD m)),
                        s_midiFSM := MSLoad\<rparr>)
      | MSLoad \<Rightarrow>
          (let m1 = m\<lparr>SMF := SMF m @ [Load (c_str (fname m))]\<rparr>
           in if SMF_load inp = E_OK then Inr (curSS, m1\<lparr>s_midiFSM := MSProcess\<rparr>)
              else
                (let aErr = ''SMF error '' @ fmt_03d (SMF_load inp)
                 in if 16 \<le> length aErr then Inl OutOfBounds
                    else
                      (case LCDErrMessage aErr False m1 of
                         Inl e \<Rightarrow> Inl e
                       | Inr m2 \<Rightarrow> Inr (curSS, m2\<lparr>s_midiFSM := MSClose\<rparr>))))
      | MSProcess \<Rightarrow>
          (case MSProcess_play inp m of
             Inl e \<Rightarrow> Inl e
           | Inr m1 \<Rightarrow> MSProcess_keys inp curSS m1)
      | MSClose \<Rightarrow>
          (case midiSilence (Serial1 m) of
             Inl e \<Rightarrow> Inl e
           | Inr ser \<Rightarrow>
               Inr (LCDSeq, m\<lparr>SMF := SMF m @ [Close], Serial1 := ser, s_midiFSM := MSBegin\<rparr>))
      | MSOpen \<Rightarrow> Inr (curSS, m\<lparr>s_midiFSM := MSBegin\<rparr>))"

text \<open>
  \<^verbatim>\<open>loop\<close>: one call of the state machine of the current mode, whose result is the
  next mode.
\<close>

definition loop :: "inputs \<Rightarrow> machine \<Rightarrow> fault + machine" where
  "loop inp m =
     (case s_loop m of
        LCDSeq \<Rightarrow>
          (case lcdFSM inp (s_loop m) m of
             Inl e \<Rightarrow> Inl e
           | Inr (ss, m1) \<Rightarrow> Inr (m1\<lparr>s_loop := ss\<rparr>))
      | MIDISeq \<Rightarrow>
          (case midiFSM inp (s_loop m) m of
             Inl e \<Rightarrow> Inl e
           | Inr (ss, m1) \<Rightarrow> Inr (m1\<lparr>s_loop := ss\<rparr>)))"

text \<open>
  The machine when \<^verbatim>\<open>setup\<close> returns: it halts unless \<^verbatim>\<open>plCount\<close> is positive,
  the play list file holds a 13-byte record for each counted file (the writes of
  \<^verbatim>\<open>createPlaylistFile\<close> having succeeded; the file is not truncated, so it may
  hold more), the statics have their initialisers and \<^verbatim>\<open>fname\<close>, a
  zero-initialised global of 14 bytes, is untouched.
\<close>

definition after_setup :: "machine \<Rightarrow> bool" where
  "after_setup m \<longleftrightarrow>
     plCount m \<noteq> 0 \<and> FNAME_SIZE * unat (plCount m) \<le> length (playlist_file m) \<and>
     fname m = replicate (FNAME_SIZE + 1) (CHR 0x00) \<and>
     s_lcdFSM m = LSBegin \<and> plIndex m = 0 \<and> \<not> isOpen (plFile m) \<and>
     s_midiFSM m = MSBegin \<and> s_loop m = LCDSeq"

text \<open>
  The Arduino runtime calls \<^verbatim>\<open>loop\<close> again and again: the machine after one call
  for each element of a list of inputs, unless a call does not return.
\<close>

fun run :: "inputs list \<Rightarrow> machine \<Rightarrow> fault + machine" where
  "run [] m = Inr m"
| "run (inp # inps) m = (case loop inp m of Inl e \<Rightarrow> Inl e | Inr m1 \<Rightarrow> run inps m1)"

section \<open>Notions used in the statements\<close>

text \<open>
  An event whose \<^verbatim>\<open>size\<close> data bytes exist: at least the first one, and none
  outside the data, an array of four bytes.
\<close>

definition well_formed :: "midi_event \<Rightarrow> bool" where
  "well_formed ev \<longleftrightarrow>
     1 \<le> unat (size_ev ev) \<and> unat (size_ev ev) \<le> length (data ev) \<and> length (data ev) \<le> 4"

text \<open>
  What the machine satisfies after \<^verbatim>\<open>setup\<close> and after every call of
  \<^verbatim>\<open>loop\<close>: the play list is not empty and its file holds
  a record for every counted entry, the cursor indexes one of them, \<^verbatim>\<open>fname\<close> is
  14 bytes ending in NUL, the play list file is open once \<^verbatim>\<open>LSBegin\<close> is left, and
  in \<^verbatim>\<open>LSSelect\<close> the buffer holds the record at the cursor.
\<close>

definition cursor_inv :: "machine \<Rightarrow> bool" where
  "cursor_inv m \<longleftrightarrow>
     plCount m \<noteq> 0 \<and> FNAME_SIZE * unat (plCount m) \<le> length (playlist_file m) \<and>
     unat (plIndex m) < unat (plCount m) \<and>
     length (fname m) = FNAME_SIZE + 1 \<and> last (fname m) = CHR 0x00 \<and>
     (s_lcdFSM m \<noteq> LSBegin \<longrightarrow> isOpen (plFile m)) \<and>
     (s_lcdFSM m = LSSelect \<longrightarrow>
        fname m = playlist_entry (playlist_file m) (unat (plIndex m)) @ [CHR 0x00])"

text \<open>
  The keys as one scan sees them: of the keys pressed, only the first in the scan order
  counts.
\<close>

definition highest_priority :: "nat list \<Rightarrow> (nat \<Rightarrow> bool) \<Rightarrow> nat \<Rightarrow> bool" where
  "highest_priority order pressed i \<longleftrightarrow> find pressed order = Some i"

text \<open>
  The MIDI message "all sound off" on channel \<open>ch\<close>: a control change (status
  \<open>0xb0\<close> with the channel in the low four bits) of controller 120 with value 0; and
  that message on each of the channels 0 to 15, in this order.
\<close>

definition all_sound_off :: "nat \<Rightarrow> byte list" where
  "all_sound_off ch = [0xb0 OR of_nat ch, 120, 0]"

definition silence :: "byte list" where
  "silence = concat (map all_sound_off [0..<16])"

text \<open>The inputs of a tick with every key released.\<close>

definition no_keys :: "inputs \<Rightarrow> inputs" where
  "no_keys inp = inp\<lparr>BTN := (\<lambda>i. False)\<rparr>"

section \<open>Example machines\<close>

text \<open>
  Inputs with no key pressed and a sequencer that has more data; the same with the keys
  of a list pressed; a card with the play list \<^verbatim>\<open>A.MID\<close>, \<^verbatim>\<open>B.MID\<close>,
  \<^verbatim>\<open>C.MID\<close>; the machine after \<^verbatim>\<open>setup\<close> on that card, and that machine two
  calls of \<^verbatim>\<open>loop\<close> later, waiting for a key.
\<close>

definition quiet :: inputs where
  "quiet = \<lparr>BTN = (\<lambda>i. False), plFile_open = True, SMF_load = E_OK, SMF_isEOF = False,
             SMF_getNextEvent = False, SMF_events = [], SMF_getTempo = 120,
             SMF_getTimeSignature = 0x0402\<rparr>"

definition press :: "nat list \<Rightarrow> inputs" where
  "press ks = quiet\<lparr>BTN := (\<lambda>i. i \<in> set ks)\<rparr>"

definition demo_card :: string where
  "demo_card =
     ''A.MID'' @ [CHR 0x00, CHR 0x00, CHR 0x00, CHR 0x00, CHR 0x00, CHR 0x00, CHR 0x00, CHR 0x00] @
     ''B.MID'' @ [CHR 0x00, CHR 0x00, CHR 0x00, CHR 0x00, CHR 0x00, CHR 0x00, CHR 0x00, CHR 0x00] @
     ''C.MID'' @ [CHR 0x00, CHR 0x00, CHR 0x00, CHR 0x00, CHR 0x00, CHR 0x00, CHR 0x00, CHR 0x00]"

definition demo_setup :: machine where
  "demo_setup =
     \<lparr>plCount = 3, fname = replicate 14 (CHR 0x00), s_lcdFSM = LSBegin, plIndex = 0,
      plFile = \<lparr>isOpen = False, curPosition = 0\<rparr>, s_midiFSM = MSBegin, s_loop = LCDSeq,
      playlist_file = demo_card, LCD = [], Serial1 = [], SMF = [], delayed = 0\<rparr>"

definition demo_select :: machine where
  "demo_select =
     demo_setup
       \<lparr>fname := ''A.MID'' @
          [CHR 0x00, CHR 0x00, CHR 0x00, CHR 0x00, CHR 0x00, CHR 0x00, CHR 0x00, CHR 0x00, CHR 0x00],
        s_lcdFSM := LSSelect,
        plFile := \<lparr>isOpen = True, curPosition = 13\<rparr>,
        LCD := LCDMessage 1 0 ''A.MID'' True (LCDMessage 0 0 ''Select play:'' True []) @
               [SetCursor 14 1, Write CHR '' '', Write CHR ''>'']\<rparr>"

text \<open>The waiting machine with a play list of 300 entries instead.\<close>

definition demo_big :: machine where
  "demo_big =
     demo_select\<lparr>plCount := 300,
                  playlist_file := concat (replicate 300 (take 13 demo_card))\<rparr>"

text \<open>The example machine during playback.\<close>

definition demo_playing :: machine where
  "demo_playing = demo_select\<lparr>s_lcdFSM := LSBegin, s_loop := MIDISeq, s_midiFSM := MSProcess\<rparr>"

section \<open>Verified properties\<close>

subsection \<open>Machine arithmetic\<close>

lemma unat_byte_less: "unat (b :: byte) < 256"
  using unsigned_less [of b, where ?'a = nat] by simp

lemma size_minus_1_pos: "1 \<le> unat sz \<Longrightarrow> size_minus_1 sz = unat sz - 1"
proof -
  assume h: "1 \<le> unat sz"
  have b: "unat sz < 256"
    by (rule unat_byte_less)
  have u: "uint sz = int (unat sz)"
    by (rule uint_nat)
  have "0 \<le> uint sz - 1" "uint sz - 1 < 65536"
    using h b u by linarith+
  then have "0 \<le> uint sz - 1" "uint sz - 1 < 2 ^ 16"
    by simp_all
  then have "(uint sz - 1) mod 2 ^ 16 = uint sz - 1"
    by (rule mod_pos_pos_trivial)
  then have "size_minus_1 sz = nat (uint sz - 1)"
    by (simp only: size_minus_1_def)
  also have "\<dots> = unat sz - 1"
    using u by linarith
  finally show ?thesis .
qed

lemma unat_ucast_byte_up: "unat (ucast (c :: byte) :: 16 word) = unat c"
proof -
  have "unat c < 2 ^ 16"
    using unat_byte_less [of c] by simp
  then have "take_bit 16 (unat c) = unat c"
    by (rule take_bit_nat_eq_self)
  then show ?thesis
    by (simp add: unsigned_ucast_eq)
qed

lemma unat_ucast_down: "unat (ucast (w :: 16 word) :: byte) = unat w mod 256"
  by (simp add: unsigned_ucast_eq take_bit_eq_mod)

lemma ucast_eq_count_minus_1:
  "n \<noteq> 0 \<Longrightarrow> ((ucast (c :: byte) :: 16 word) = n - 1) = (unat c = unat n - 1)"
proof -
  assume "n \<noteq> 0"
  then have "unat (n - 1) = unat n - 1"
    by (rule unat_minus_one)
  then show ?thesis
    using unat_ucast_byte_up [of c] word_unat_eq_iff [of "ucast c" "n - 1"] by simp
qed

subsection \<open>MIDI callback\<close>

lemma debug_loop_from:
  "unat sz < 255 \<Longrightarrow> unat i \<le> unat sz + 1 \<Longrightarrow> debug_loop i sz = Some ()"
proof (induction "unat sz + 1 - unat i" arbitrary: i)
  case 0
  then have "\<not> i \<le> sz"
    by (simp add: word_le_nat_alt)
  then show ?case
    by (subst debug_loop.simps) simp
next
  case (Suc k)
  show ?case
  proof (cases "i \<le> sz")
    case True
    then have "unat i \<le> unat sz"
      by (simp add: word_le_nat_alt)
    then have "unat i + 1 < 256"
      using Suc.prems(1) by linarith
    then have next_i: "unat (i + 1) = unat i + 1"
      by (simp add: unat_word_ariths)
    have "debug_loop (i + 1) sz = Some ()"
      using Suc.hyps(2) Suc.prems(1) \<open>unat i \<le> unat sz\<close> next_i
      by (intro Suc.hyps(1)) simp_all
    with True show ?thesis
      by (subst debug_loop.simps) simp
  next
    case False
    then show ?thesis
      by (subst debug_loop.simps) simp
  qed
qed

lemma debug_loop_ends: "unat sz < 255 \<Longrightarrow> debug_loop 0 sz = Some ()"
  by (rule debug_loop_from) simp_all

lemma debug_loop_Some:
  assumes "debug_loop i sz = Some u"
  shows "sz \<noteq> 255"
proof (rule debug_loop.raw_induct [where P = "\<lambda>i sz u. sz \<noteq> 255", OF _ assms])
  fix f :: "byte \<Rightarrow> byte \<Rightarrow> unit option" and i sz :: byte and u :: unit
  assume IH: "\<And>i sz u. f i sz = Some u \<Longrightarrow> sz \<noteq> 255"
    and step: "(if i \<le> sz then f (i + 1) sz else Some ()) = Some u"
  show "sz \<noteq> 255"
  proof (cases "i \<le> sz")
    case True
    then show ?thesis
      using IH step by simp
  next
    case False
    have "i \<le> 255"
      using unat_byte_less [of i] by (simp add: word_le_nat_alt)
    then show ?thesis
      using False by auto
  qed
qed

lemma debug_loop_255: "debug_loop i 255 = None"
  using debug_loop_Some [of i 255] by (cases "debug_loop i 255") auto

text \<open>
  C5: an event whose first data byte is a channel-coded status (\<open>0x80\<close> to \<open>0xe0\<close>,
  the test of the source) is forwarded as that byte OR-ed with the channel, followed by
  the other \<open>size - 1\<close> data bytes; any other event is forwarded as its \<open>size\<close> data
  bytes, unchanged; either way exactly \<open>size\<close> bytes are appended to the output. An
  event has a first data byte when its size is at least 1, and its \<open>size\<close> bytes lie
  inside its data, an array of four bytes.
\<close>

theorem midiCallback_forwards_size_bytes:
  assumes "1 \<le> unat (size_ev pev)" and "unat (size_ev pev) \<le> length (data pev)"
    and "length (data pev) \<le> 4"
  shows "(0x80 \<le> hd (data pev) \<and> hd (data pev) \<le> 0xe0 \<longrightarrow>
            midiCallback pev ser =
              Inr (ser @ (hd (data pev) OR channel pev) #
                         take (unat (size_ev pev) - 1) (tl (data pev)))) \<and>
         (\<not> (0x80 \<le> hd (data pev) \<and> hd (data pev) \<le> 0xe0) \<longrightarrow>
            midiCallback pev ser = Inr (ser @ take (unat (size_ev pev)) (data pev))) \<and>
         (\<exists>bs. midiCallback pev ser = Inr (ser @ bs) \<and> length bs = unat (size_ev pev))"
proof -
  obtain d0 ds where d: "data pev = d0 # ds"
    using assms by (cases "data pev") auto
  have n: "size_minus_1 (size_ev pev) = unat (size_ev pev) - 1"
    using assms(1) by (rule size_minus_1_pos)
  have e: "debug_loop 0 (size_ev pev) = Some ()"
    using assms(2,3) by (intro debug_loop_ends) simp
  show ?thesis
    using assms d n e by (auto simp: midiCallback_def buf_read_def)
qed

theorem midiCallback_forwards_size_bytes_witness:
  "midiCallback \<lparr>track = 1, channel = 5, size_ev = 3, data = [0x90, 60, 100, 0]\<rparr> [7] =
     Inr [7, 0x95, 60, 100] \<and>
   midiCallback \<lparr>track = 1, channel = 5, size_ev = 2, data = [0xf2, 60, 100, 0]\<rparr> [7] =
     Inr [7, 0xf2, 60]"
  using midiCallback_forwards_size_bytes
          [of "\<lparr>track = 1, channel = 5, size_ev = 3, data = [0x90, 60, 100, 0]\<rparr>" "[7]"]
        midiCallback_forwards_size_bytes
          [of "\<lparr>track = 1, channel = 5, size_ev = 2, data = [0xf2, 60, 100, 0]\<rparr>" "[7]"]
  by simp

subsection \<open>The cursor invariant\<close>

lemma midiFSM_frame:
  assumes "midiFSM inp cur m = Inr (ss, m')"
  shows "fname m' = fname m \<and> plIndex m' = plIndex m \<and> plCount m' = plCount m \<and>
         playlist_file m' = playlist_file m \<and> plFile m' = plFile m \<and> s_lcdFSM m' = s_lcdFSM m"
  using assms
  by (auto simp: midiFSM_def MSProcess_play_def MSProcess_keys_def LCDErrMessage_def Let_def
      split: midi_state.splits sum.splits if_splits)

lemma after_setup_inv: "after_setup m \<Longrightarrow> cursor_inv m"
  by (auto simp: after_setup_def cursor_inv_def unat_gt_0)

lemma drop_all_but_last:
  assumes "length xs = Suc n"
  shows "drop n xs = [last xs]"
proof -
  from assms have "xs \<noteq> []" by auto
  then have "xs = butlast xs @ [last xs]" by simp
  moreover have "length (butlast xs) = n" using assms by simp
  ultimately show ?thesis
    by (metis append_eq_conv_conj)
qed

lemma entry_length:
  assumes "FNAME_SIZE * n \<le> length contents" and "i < n"
  shows "length (playlist_entry contents i) = FNAME_SIZE"
proof -
  have "FNAME_SIZE * (i + 1) \<le> FNAME_SIZE * n"
    using assms(2) by (intro mult_le_mono2) simp
  then have "FNAME_SIZE * i + FNAME_SIZE \<le> length contents"
    using assms(1) by simp
  then show ?thesis
    by (simp add: playlist_entry_def)
qed

lemma lcdFSM_Begin_inv:
  assumes "cursor_inv m" and "s_lcdFSM m = LSBegin" and "lcdFSM inp cur m = Inr (ss, m')"
  shows "cursor_inv m'"
  using assms
  by (auto simp: lcdFSM_def cursor_inv_def LCDErrMessage_def Let_def split: if_splits)

lemma lcdFSM_ShowFile_inv:
  assumes inv: "cursor_inv m" and st: "s_lcdFSM m = LSShowFile"
    and step: "lcdFSM inp cur m = Inr (ss, m')"
  shows "cursor_inv m'"
proof -
  let ?c = "unat (plIndex m)"
  have open_f: "isOpen (plFile m)"
    using inv st by (simp add: cursor_inv_def)
  have len: "length (playlist_entry (playlist_file m) ?c) = FNAME_SIZE"
    using inv by (intro entry_length [where n = "unat (plCount m)"]) (simp_all add: cursor_inv_def)
  then have pos: "FNAME_SIZE * ?c \<le> length (playlist_file m)"
    by (simp add: playlist_entry_def FNAME_SIZE_def)
  have tail: "drop FNAME_SIZE (fname m) = [CHR 0x00]"
    using inv drop_all_but_last [of "fname m" FNAME_SIZE] by (simp add: cursor_inv_def)
  have got: "read_file FNAME_SIZE (playlist_file m) (seekSet (FNAME_SIZE * ?c) (playlist_file m) (plFile m)) =
      (playlist_entry (playlist_file m) ?c,
       plFile m\<lparr>curPosition := FNAME_SIZE * ?c + FNAME_SIZE\<rparr>)"
    using open_f pos len by (simp add: read_file_def seekSet_def playlist_entry_def Let_def)
  have "fname m' = playlist_entry (playlist_file m) ?c @ [CHR 0x00]"
    and "plIndex m' = plIndex m" and "plCount m' = plCount m" and "playlist_file m' = playlist_file m"
    and "isOpen (plFile m')" and "s_lcdFSM m' = LSSelect"
    using step st got len tail open_f by (auto simp: lcdFSM_def Let_def)
  then show ?thesis
    using inv len by (simp add: cursor_inv_def)
qed

lemma cursor_left: "(c :: byte) \<noteq> 0 \<Longrightarrow> unat (c - 1) = unat c - 1"
  by (rule unat_minus_one)

lemma cursor_down: "n \<noteq> 0 \<Longrightarrow> unat (ucast (n - 1 :: 16 word) :: byte) < unat n"
proof -
  assume n: "n \<noteq> 0"
  then have "unat (n - 1) = unat n - 1"
    by (rule unat_minus_one)
  moreover have "0 < unat n"
    using n by (simp add: unat_gt_0)
  moreover have "(unat n - 1) mod 256 \<le> unat n - 1"
    by (rule mod_less_eq_dividend)
  ultimately show ?thesis
    by (simp add: unat_ucast_down)
qed

lemma cursor_right:
  assumes "n \<noteq> 0" and "unat (c :: byte) < unat (n :: 16 word)" and "ucast c \<noteq> n - 1"
  shows "unat (c + 1) < unat n"
proof -
  have "unat c \<noteq> unat n - 1"
    using assms(1,3) by (simp add: ucast_eq_count_minus_1)
  then have "unat c + 1 < unat n"
    using assms(2) by linarith
  moreover have "unat (c + 1) \<le> unat c + 1"
    by (simp add: unat_word_ariths)
  ultimately show ?thesis
    by linarith
qed

lemma lcdFSM_Select_inv:
  assumes inv: "cursor_inv m" and st: "s_lcdFSM m = LSSelect"
    and step: "lcdFSM inp cur m = Inr (ss, m')"
  shows "cursor_inv m'"
proof -
  have n: "plCount m \<noteq> 0" and c: "unat (plIndex m) < unat (plCount m)"
    using inv by (simp_all add: cursor_inv_def)
  have l: "plIndex m \<noteq> 0 \<Longrightarrow> unat (plIndex m - 1) < unat (plCount m)"
    using c by (simp add: cursor_left)
  have u: "unat (0 :: byte) < unat (plCount m)"
    using n by (simp add: unat_gt_0)
  note d = cursor_down [OF n]
  have r: "ucast (plIndex m) \<noteq> plCount m - 1 \<Longrightarrow> unat (plIndex m + 1) < unat (plCount m)"
    using n c by (rule cursor_right)
  show ?thesis
    using step st inv l u d r
    by (auto simp: lcdFSM_def cursor_inv_def split: if_splits)
qed

lemma lcdFSM_inv:
  assumes "cursor_inv m" and "lcdFSM inp cur m = Inr (ss, m')"
  shows "cursor_inv m'"
  using assms lcdFSM_Begin_inv lcdFSM_ShowFile_inv lcdFSM_Select_inv
  by (cases "s_lcdFSM m") blast+

lemma midiFSM_inv:
  assumes "cursor_inv m" and "midiFSM inp cur m = Inr (ss, m')"
  shows "cursor_inv m'"
  using assms(1) midiFSM_frame [OF assms(2)] by (simp add: cursor_inv_def)

lemma loop_inv:
  assumes "cursor_inv m" and "loop inp m = Inr m'"
  shows "cursor_inv m'"
proof (cases "s_loop m")
  case LCDSeq
  then obtain ss m1 where "lcdFSM inp LCDSeq m = Inr (ss, m1)" and "m' = m1\<lparr>s_loop := ss\<rparr>"
    using assms(2) by (auto simp: loop_def split: sum.splits)
  then show ?thesis
    using assms(1) lcdFSM_inv [of m inp LCDSeq ss m1] by (simp add: cursor_inv_def)
next
  case MIDISeq
  then obtain ss m1 where "midiFSM inp MIDISeq m = Inr (ss, m1)" and "m' = m1\<lparr>s_loop := ss\<rparr>"
    using assms(2) by (auto simp: loop_def split: sum.splits)
  then show ?thesis
    using assms(1) midiFSM_inv [of m inp MIDISeq ss m1] by (simp add: cursor_inv_def)
qed

lemma run_inv: "cursor_inv m0 \<Longrightarrow> run inps m0 = Inr m \<Longrightarrow> cursor_inv m"
proof (induction inps arbitrary: m0)
  case Nil
  then show ?case by simp
next
  case (Cons inp inps)
  then obtain m1 where "loop inp m0 = Inr m1" and "run inps m1 = Inr m"
    by (auto split: sum.splits)
  then show ?case
    using Cons.IH Cons.prems(1) loop_inv by blast
qed

subsection \<open>Navigation\<close>

lemma after_setup_demo: "after_setup demo_setup"
  by (simp add: after_setup_def demo_setup_def demo_card_def FNAME_SIZE_def)

lemma loop_demo_begin:
  "loop quiet demo_setup =
     Inr (demo_setup\<lparr>LCD := LCDMessage 0 0 ''Select play:'' True [],
                      plFile := \<lparr>isOpen = True, curPosition = 0\<rparr>,
                      s_lcdFSM := LSShowFile\<rparr>)"
  by (simp add: loop_def lcdFSM_def demo_setup_def quiet_def)

lemma loop_demo_show:
  "loop quiet (demo_setup\<lparr>LCD := LCDMessage 0 0 ''Select play:'' True [],
                      plFile := \<lparr>isOpen = True, curPosition = 0\<rparr>,
                      s_lcdFSM := LSShowFile\<rparr>) = Inr demo_select"
  by (simp add: loop_def lcdFSM_def demo_setup_def demo_select_def quiet_def seekSet_def
      read_file_def FNAME_SIZE_def demo_card_def c_str_def LCD_COLS_def)

lemma run_demo_select: "run [quiet, quiet] demo_setup = Inr demo_select"
  by (simp add: loop_demo_begin loop_demo_show)

text \<open>
  C2: in a machine that calls of \<^verbatim>\<open>loop\<close> have brought from \<^verbatim>\<open>setup\<close> to the
  state \<open>LSSelect\<close> of the navigation FSM, a tick in which Select is read as pressed
  leaves in \<open>fname\<close> exactly the 13-byte play list record at
  the cursor (followed by the terminating NUL of the buffer), returns the mode
  \<open>MIDISeq\<close> and resets the FSM to \<open>LSBegin\<close>; and a tick in that state switches the
  mode exactly when Select is read as pressed.
\<close>

theorem select_copies_entry_and_switches_mode:
  assumes "after_setup m0" and "run inps m0 = Inr m"
    and "s_loop m = LCDSeq" and "s_lcdFSM m = LSSelect" and "BTN inp 4"
  shows "\<exists>m'. loop inp m = Inr m' \<and>
           fname m' = playlist_entry (playlist_file m') (unat (plIndex m')) @ [CHR 0x00] \<and>
           length (playlist_entry (playlist_file m') (unat (plIndex m'))) = FNAME_SIZE \<and>
           plIndex m' = plIndex m \<and> playlist_file m' = playlist_file m \<and>
           s_loop m' = MIDISeq \<and> s_lcdFSM m' = LSBegin \<and>
           (\<forall>inp'. \<exists>m''. loop inp' m = Inr m'' \<and> (s_loop m'' = MIDISeq \<longleftrightarrow> BTN inp' 4))"
proof -
  have inv: "cursor_inv m"
    using after_setup_inv [OF assms(1)] assms(2) by (rule run_inv)
  have buf: "fname m = playlist_entry (playlist_file m) (unat (plIndex m)) @ [CHR 0x00]"
    using inv assms(4) by (simp add: cursor_inv_def)
  have len: "length (playlist_entry (playlist_file m) (unat (plIndex m))) = FNAME_SIZE"
    using inv by (intro entry_length [where n = "unat (plCount m)"]) (simp_all add: cursor_inv_def)
  have step: "loop inp m = Inr (m\<lparr>s_lcdFSM := LSBegin, s_loop := MIDISeq\<rparr>)"
    using assms(3-5) by (simp add: loop_def lcdFSM_def)
  have others: "\<exists>m''. loop inp' m = Inr m'' \<and> (s_loop m'' = MIDISeq \<longleftrightarrow> BTN inp' 4)" for inp'
    using assms(3,4) by (simp add: loop_def lcdFSM_def)
  show ?thesis
    using step buf len others by simp
qed

theorem select_copies_entry_and_switches_mode_witness:
  "after_setup demo_setup \<and> run [quiet, quiet] demo_setup = Inr demo_select \<and>
   BTN (press [4]) 4 \<and>
   loop (press [4]) demo_select = Inr (demo_select\<lparr>s_lcdFSM := LSBegin, s_loop := MIDISeq\<rparr>) \<and>
   fname demo_select = playlist_entry (playlist_file demo_select) 0 @ [CHR 0x00] \<and>
   playlist_entry (playlist_file demo_select) 0 = ''A.MID'' @
      [CHR 0x00, CHR 0x00, CHR 0x00, CHR 0x00, CHR 0x00, CHR 0x00, CHR 0x00, CHR 0x00]"
proof -
  have sel: "s_loop demo_select = LCDSeq" "s_lcdFSM demo_select = LSSelect"
    "BTN (press [4]) 4" "plIndex demo_select = 0"
    by (simp_all add: demo_select_def demo_setup_def press_def)
  have entry: "playlist_entry (playlist_file demo_select) 0 = ''A.MID'' @
      [CHR 0x00, CHR 0x00, CHR 0x00, CHR 0x00, CHR 0x00, CHR 0x00, CHR 0x00, CHR 0x00]"
    by (simp add: demo_select_def demo_setup_def demo_card_def playlist_entry_def FNAME_SIZE_def)
  have step: "loop (press [4]) demo_select =
      Inr (demo_select\<lparr>s_lcdFSM := LSBegin, s_loop := MIDISeq\<rparr>)"
    using sel by (simp add: loop_def lcdFSM_def)
  show ?thesis
    using select_copies_entry_and_switches_mode
        [OF after_setup_demo run_demo_select sel(1,2,3)]
      after_setup_demo run_demo_select sel step entry
    by auto
qed

subsection \<open>Display markers and cursor arithmetic\<close>

text \<open>
  C8: the step in \<open>LSShowFile\<close> ends by writing two marker characters at column 14 of
  row 1. With a play list of \<open>n \<ge> 1\<close> entries and the cursor at \<open>c\<close>, the left one is
  a blank exactly when \<open>c = 0\<close> and \<open><\<close> otherwise, the right one is a blank exactly
  when \<open>c = n - 1\<close> and \<open>>\<close> otherwise; with \<open>n = 1\<close> (the cursor then being 0) both
  are blanks.
\<close>

theorem show_file_markers:
  assumes "s_lcdFSM m = LSShowFile" and "plCount m \<noteq> 0"
  shows "\<exists>m' shown l r.
           lcdFSM inp cur m = Inr (cur, m') \<and> s_lcdFSM m' = LSSelect \<and>
           LCD m' = shown @ [SetCursor 14 1, Write l, Write r] \<and>
           (l = CHR '' '' \<longleftrightarrow> unat (plIndex m) = 0) \<and>
           (l = CHR ''<'' \<longleftrightarrow> unat (plIndex m) \<noteq> 0) \<and>
           (r = CHR '' '' \<longleftrightarrow> unat (plIndex m) = unat (plCount m) - 1) \<and>
           (r = CHR ''>'' \<longleftrightarrow> unat (plIndex m) \<noteq> unat (plCount m) - 1) \<and>
           (unat (plCount m) = 1 \<and> unat (plIndex m) < unat (plCount m) \<longrightarrow>
              l = CHR '' '' \<and> r = CHR '' '')"
proof -
  have r: "((ucast (plIndex m) :: 16 word) = plCount m - 1) =
      (unat (plIndex m) = unat (plCount m) - 1)"
    using assms(2) by (rule ucast_eq_count_minus_1)
  have l: "(plIndex m = 0) = (unat (plIndex m) = 0)"
    by (simp add: unsigned_eq_0_iff)
  show ?thesis
    using assms(1) r l
    by (cases "read_file FNAME_SIZE (playlist_file m)
          (seekSet (FNAME_SIZE * unat (plIndex m)) (playlist_file m) (plFile m))")
       (auto simp: lcdFSM_def Let_def LCD_COLS_def)
qed

theorem show_file_markers_witness:
  "lcdFSM quiet LCDSeq
     (demo_setup\<lparr>plCount := 1, s_lcdFSM := LSShowFile,
                  plFile := \<lparr>isOpen = True, curPosition = 0\<rparr>\<rparr>) =
   Inr (LCDSeq,
     demo_setup\<lparr>plCount := 1,
        fname := ''A.MID'' @
          [CHR 0x00, CHR 0x00, CHR 0x00, CHR 0x00, CHR 0x00, CHR 0x00, CHR 0x00, CHR 0x00, CHR 0x00],
        s_lcdFSM := LSSelect,
        plFile := \<lparr>isOpen = True, curPosition = 13\<rparr>,
        LCD := LCDMessage 1 0 ''A.MID'' True [] @
               [SetCursor 14 1, Write CHR '' '', Write CHR '' '']\<rparr>)"
  using show_file_markers
    [of "demo_setup\<lparr>plCount := 1, s_lcdFSM := LSShowFile,
                     plFile := \<lparr>isOpen = True, curPosition = 0\<rparr>\<rparr>" quiet LCDSeq]
  by (simp add: lcdFSM_def demo_setup_def quiet_def seekSet_def
      read_file_def FNAME_SIZE_def demo_card_def c_str_def LCD_COLS_def)

lemma uint_cursor_down: "uint (ucast (n - 1 :: 16 word) :: byte) = (uint n - 1) mod 256"
proof -
  have "uint (ucast (n - 1 :: 16 word) :: byte) = uint (n - 1) mod 256"
    by (simp add: unsigned_ucast_eq take_bit_eq_mod)
  also have "uint (n - 1) = (uint n - 1) mod 65536"
    by (simp add: uint_word_ariths)
  also have "(uint n - 1) mod 65536 mod 256 = (uint n - 1) mod 256"
    by (rule mod_mod_cancel) simp
  finally show ?thesis .
qed

text \<open>
  C10: \<^verbatim>\<open>plIndex\<close> has 8 bits and \<^verbatim>\<open>plCount\<close> 16. In \<open>LSSelect\<close>, when Down is
  the key acted on, the cursor becomes \<open>(n - 1) mod 256\<close>; when Right is the key acted
  on and the cursor is not \<open>n - 1\<close>, it becomes \<open>(c + 1) mod 256\<close>; and when \<open>n > 256\<close>
  no cursor value equals \<open>n - 1\<close>, so that Right at cursor 255 gives 0.
\<close>

theorem cursor_arithmetic_mod_256:
  assumes "s_lcdFSM m = LSSelect" and "\<not> BTN inp 4" and "\<not> BTN inp 3" and "\<not> BTN inp 0"
  shows "(BTN inp 1 \<longrightarrow>
            (\<exists>m'. lcdFSM inp cur m = Inr (cur, m') \<and>
                   uint (plIndex m') = (uint (plCount m) - 1) mod 256)) \<and>
         (\<not> BTN inp 1 \<and> BTN inp 2 \<and> plCount m \<noteq> 0 \<and>
            unat (plIndex m) \<noteq> unat (plCount m) - 1 \<longrightarrow>
            (\<exists>m'. lcdFSM inp cur m = Inr (cur, m') \<and>
                   unat (plIndex m') = (unat (plIndex m) + 1) mod 256)) \<and>
         (256 < unat (plCount m) \<longrightarrow> unat (plIndex m) \<noteq> unat (plCount m) - 1) \<and>
         (\<not> BTN inp 1 \<and> BTN inp 2 \<and> 256 < unat (plCount m) \<and> plIndex m = 255 \<longrightarrow>
            (\<exists>m'. lcdFSM inp cur m = Inr (cur, m') \<and> plIndex m' = 0))"
proof -
  have never: "unat (plIndex m) \<noteq> unat (plCount m) - 1" if "256 < unat (plCount m)"
    using that unat_byte_less [of "plIndex m"] by linarith
  have ne: "(ucast (plIndex m) :: 16 word) \<noteq> plCount m - 1"
    if "plCount m \<noteq> 0" and "unat (plIndex m) \<noteq> unat (plCount m) - 1"
    using that by (simp add: ucast_eq_count_minus_1)
  have big: "plCount m \<noteq> 0" if "256 < unat (plCount m)"
    using that by auto
  show ?thesis
    using assms never ne big
    by (auto simp: lcdFSM_def uint_cursor_down unat_word_ariths)
qed

theorem cursor_arithmetic_mod_256_witness:
  "lcdFSM (press [1]) LCDSeq demo_big =
     Inr (LCDSeq, demo_big\<lparr>plIndex := 43, s_lcdFSM := LSShowFile\<rparr>) \<and>
   ((300 - 1) mod 256 = (43 :: int)) \<and>
   lcdFSM (press [2]) LCDSeq (demo_big\<lparr>plIndex := 255\<rparr>) =
     Inr (LCDSeq, demo_big\<lparr>plIndex := 0, s_lcdFSM := LSShowFile\<rparr>)"
  using cursor_arithmetic_mod_256 [of demo_big "press [1]" LCDSeq]
    cursor_arithmetic_mod_256 [of "demo_big\<lparr>plIndex := 255\<rparr>" "press [2]" LCDSeq]
  by (simp add: lcdFSM_def demo_big_def demo_select_def demo_setup_def press_def quiet_def)

subsection \<open>Cursor moves and key priority\<close>

text \<open>
  The clamped cursor moves: with at most 256 entries, which is all an 8-bit cursor can
  index, Left, Right, Up and Down move the cursor to \<open>max (c - 1) 0\<close>
  (the subtraction of natural numbers, which stops at 0), \<open>min (c + 1) (n - 1)\<close>,
  \<open>0\<close> and \<open>n - 1\<close>.
\<close>

lemma cursor_moves_upto_256_entries:
  assumes "s_lcdFSM m = LSSelect" and "\<not> BTN inp 4"
    and "1 \<le> unat (plCount m)" and "unat (plCount m) \<le> 256"
    and "unat (plIndex m) \<le> unat (plCount m) - 1"
  shows "\<exists>m'. lcdFSM inp cur m = Inr (cur, m') \<and>
           (BTN inp 3 \<longrightarrow> unat (plIndex m') = unat (plIndex m) - 1) \<and>
           (\<not> BTN inp 3 \<and> BTN inp 0 \<longrightarrow> unat (plIndex m') = 0) \<and>
           (\<not> BTN inp 3 \<and> \<not> BTN inp 0 \<and> BTN inp 1 \<longrightarrow>
              unat (plIndex m') = unat (plCount m) - 1) \<and>
           (\<not> BTN inp 3 \<and> \<not> BTN inp 0 \<and> \<not> BTN inp 1 \<and> BTN inp 2 \<longrightarrow>
              unat (plIndex m') = min (unat (plIndex m) + 1) (unat (plCount m) - 1)) \<and>
           unat (plIndex m') \<le> unat (plCount m) - 1"
proof -
  let ?c = "plIndex m" and ?n = "plCount m"
  have n: "?n \<noteq> 0"
    using assms(3) by auto
  have left: "unat (?c - 1) = unat ?c - 1" if "?c \<noteq> 0"
    using that by (rule unat_minus_one)
  have zero: "(?c = 0) = (unat ?c = 0)"
    by (simp add: unsigned_eq_0_iff)
  have "unat (?n - 1) = unat ?n - 1"
    using n by (rule unat_minus_one)
  then have down: "unat (ucast (?n - 1) :: byte) = unat ?n - 1"
    using assms(3,4) by (simp add: unat_ucast_down)
  have eq: "((ucast ?c :: 16 word) = ?n - 1) = (unat ?c = unat ?n - 1)"
    using n by (rule ucast_eq_count_minus_1)
  have right: "unat (?c + 1) = unat ?c + 1" if "unat ?c \<noteq> unat ?n - 1"
  proof -
    have "unat ?c + 1 < 256"
      using that assms(4,5) by linarith
    then show ?thesis
      by (simp add: unat_word_ariths)
  qed
  show ?thesis
    using assms left zero down eq right
    by (auto simp: lcdFSM_def)
qed

text \<open>
  C1: the code at a play list of 300 entries. Down, from cursor 0, stores
  \<open>(uint8_t) 299 = 43\<close>, not \<open>n - 1 = 299\<close>; Right, from cursor 255, wraps to 0, not
  to \<open>min (c + 1) (n - 1) = 256\<close>.
\<close>

theorem cursor_moves_on_300_entries:
  "lcdFSM (press [1]) LCDSeq demo_big =
     Inr (LCDSeq, demo_big\<lparr>plIndex := 43, s_lcdFSM := LSShowFile\<rparr>) \<and>
   unat (plCount demo_big) = 300 \<and> unat (plIndex demo_big) = 0 \<and>
   lcdFSM (press [2]) LCDSeq (demo_big\<lparr>plIndex := 255\<rparr>) =
     Inr (LCDSeq, demo_big\<lparr>plIndex := 0, s_lcdFSM := LSShowFile\<rparr>)"
  by (simp add: lcdFSM_def demo_big_def demo_select_def demo_setup_def press_def quiet_def)

lemma MSProcess_play_BTN: "MSProcess_play (inp\<lparr>BTN := b\<rparr>) m = MSProcess_play inp m"
  by (simp add: MSProcess_play_def Let_def split: sum.splits)

text \<open>
  C9: a tick of either FSM is the tick in which, of the keys pressed, only the first in
  the scan order was pressed: Select, Left, Up, Down, Right (keys 4, 3, 0, 1, 2) for
  navigation and Rewind, Stop, Pause, Resume (keys 3, 2, 0, 1) for playback; and that
  is at most one key.
\<close>

theorem one_key_per_tick:
  "lcdFSM inp cur m = lcdFSM (inp\<lparr>BTN := highest_priority [4, 3, 0, 1, 2] (BTN inp)\<rparr>) cur m \<and>
   midiFSM inp cur m = midiFSM (inp\<lparr>BTN := highest_priority [3, 2, 0, 1] (BTN inp)\<rparr>) cur m \<and>
   (\<forall>order i j. highest_priority order (BTN inp) i \<and> highest_priority order (BTN inp) j
      \<longrightarrow> i = j)"
proof -
  have nav: "lcdFSM inp cur m =
      lcdFSM (inp\<lparr>BTN := highest_priority [4, 3, 0, 1, 2] (BTN inp)\<rparr>) cur m"
    by (simp add: lcdFSM_def highest_priority_def Let_def LCDErrMessage_def
        split: lcd_state.splits)
  have keys: "MSProcess_keys (inp\<lparr>BTN := highest_priority [3, 2, 0, Suc 0] (BTN inp)\<rparr>) cur m1 =
      MSProcess_keys inp cur m1" for m1
    by (simp add: MSProcess_keys_def highest_priority_def)
  have play: "midiFSM inp cur m =
      midiFSM (inp\<lparr>BTN := highest_priority [3, 2, 0, 1] (BTN inp)\<rparr>) cur m"
    by (cases "s_midiFSM m")
       (simp_all add: midiFSM_def MSProcess_play_BTN keys Let_def cong: sum.case_cong)
  have one: "\<forall>order i j.
      highest_priority order (BTN inp) i \<and> highest_priority order (BTN inp) j \<longrightarrow> i = j"
    by (auto simp: highest_priority_def)
  show ?thesis
    using nav play one by (intro conjI)
qed

theorem one_key_per_tick_witness:
  "lcdFSM (press [3, 4]) LCDSeq demo_select = lcdFSM (press [4]) LCDSeq demo_select \<and>
   lcdFSM (press [3, 4]) LCDSeq demo_select = Inr (MIDISeq, demo_select\<lparr>s_lcdFSM := LSBegin\<rparr>) \<and>
   midiFSM (press [0, 1, 2]) MIDISeq (demo_select\<lparr>s_midiFSM := MSProcess\<rparr>) =
     midiFSM (press [2]) MIDISeq (demo_select\<lparr>s_midiFSM := MSProcess\<rparr>)"
proof -
  have a: "press [3, 4]\<lparr>BTN := highest_priority [4, 3, 0, 1, 2] (BTN (press [3, 4]))\<rparr> = press [4]"
    by (auto simp: press_def quiet_def highest_priority_def)
  have b: "press [0, 1, 2]\<lparr>BTN := highest_priority [3, 2, 0, 1] (BTN (press [0, 1, 2]))\<rparr> = press [2]"
    by (auto simp: press_def quiet_def highest_priority_def)
  have c: "lcdFSM (press [4]) LCDSeq demo_select = Inr (MIDISeq, demo_select\<lparr>s_lcdFSM := LSBegin\<rparr>)"
    by (simp add: lcdFSM_def demo_select_def demo_setup_def press_def quiet_def)
  show ?thesis
    using one_key_per_tick [of "press [3, 4]" LCDSeq demo_select]
      one_key_per_tick [of "press [0, 1, 2]" MIDISeq "demo_select\<lparr>s_midiFSM := MSProcess\<rparr>"]
      a b c
    by simp
qed

subsection \<open>Playback\<close>

lemma all_sound_off_step:
  "midiCallback \<lparr>track = t, channel = c, size_ev = 3, data = [0xb0, 120, 0]\<rparr> ser =
     Inr (ser @ [0xb0 OR c, 120, 0])"
  by (simp add: midiCallback_def buf_read_def size_minus_1_def debug_loop_ends)

lemma midiSilence_eq: "midiSilence ser = Inr (ser @ silence)"
  by (simp add: midiSilence_def all_sound_off_step silence_def all_sound_off_def upt_rec)

lemma midiCallback_ok:
  assumes "well_formed ev"
  shows "\<exists>bs. midiCallback ev ser = Inr (ser @ bs)"
proof -
  obtain d0 ds where d: "data ev = d0 # ds"
    using assms by (cases "data ev") (auto simp: well_formed_def)
  have n: "size_minus_1 (size_ev ev) = unat (size_ev ev) - 1"
    using assms by (intro size_minus_1_pos) (simp add: well_formed_def)
  have e: "debug_loop 0 (size_ev ev) = Some ()"
    using assms by (intro debug_loop_ends) (simp add: well_formed_def)
  show ?thesis
    using assms d n e by (auto simp: midiCallback_def buf_read_def well_formed_def)
qed

lemma midiCallbacks_ok:
  "list_all well_formed evs \<Longrightarrow> \<exists>bs. midiCallbacks evs ser = Inr (ser @ bs)"
proof (induction evs arbitrary: ser)
  case Nil
  then show ?case by simp
next
  case (Cons ev evs)
  then obtain bs where b: "midiCallback ev ser = Inr (ser @ bs)"
    using midiCallback_ok [of ev ser] by auto
  from Cons obtain cs where "midiCallbacks evs (ser @ bs) = Inr ((ser @ bs) @ cs)"
    by fastforce
  with b show ?case by simp
qed

lemma MSProcess_play_ok:
  assumes "list_all well_formed (SMF_events inp)"
  shows "\<exists>m1. MSProcess_play inp m = Inr m1 \<and>
           s_midiFSM m1 = (if SMF_isEOF inp then MSClose else s_midiFSM m) \<and>
           SMF m1 = SMF m @ (if SMF_isEOF inp then [] else [GetNextEvent]) \<and>
           s_lcdFSM m1 = s_lcdFSM m \<and> plIndex m1 = plIndex m"
proof -
  obtain bs where "midiCallbacks (SMF_events inp) (Serial1 m) = Inr (Serial1 m @ bs)"
    using midiCallbacks_ok [OF assms] by blast
  then show ?thesis
    by (simp add: MSProcess_play_def Let_def)
qed

lemma MSProcess_keys_none: "MSProcess_keys (no_keys inp) cur m = Inr (cur, m)"
  by (simp add: MSProcess_keys_def no_keys_def)

lemma MSProcess_play_no_keys: "MSProcess_play (no_keys inp) m = MSProcess_play inp m"
  by (simp add: no_keys_def MSProcess_play_BTN)

text \<open>
  C7: in \<open>MSProcess\<close>, a tick in which Rewind (the left key) is pressed returns the
  mode it was given and differs from the same tick with no key pressed only in the
  all-sound-off messages appended to the serial output and the \<^verbatim>\<open>restart()\<close> the
  sequencer receives; the state stays \<open>MSProcess\<close> unless the sequencer reported the
  end of the data in that tick. The events the sequencer hands over in the tick are
  well formed.
\<close>

theorem rewind_only_silences_and_restarts:
  assumes "s_midiFSM m = MSProcess" and "BTN inp 3"
    and "list_all well_formed (SMF_events inp)"
  shows "\<exists>m0. midiFSM (no_keys inp) cur m = Inr (cur, m0) \<and>
           midiFSM inp cur m =
             Inr (cur, m0\<lparr>Serial1 := Serial1 m0 @ silence, SMF := SMF m0 @ [Restart]\<rparr>) \<and>
           (\<not> SMF_isEOF inp \<longrightarrow> s_midiFSM m0 = MSProcess)"
proof -
  obtain m0 where p: "MSProcess_play inp m = Inr m0"
    and s: "s_midiFSM m0 = (if SMF_isEOF inp then MSClose else s_midiFSM m)"
    using MSProcess_play_ok [OF assms(3)] by blast
  have "midiFSM (no_keys inp) cur m = Inr (cur, m0)"
    using assms(1) p by (simp add: midiFSM_def MSProcess_play_no_keys MSProcess_keys_none)
  moreover have "midiFSM inp cur m =
      Inr (cur, m0\<lparr>Serial1 := Serial1 m0 @ silence, SMF := SMF m0 @ [Restart]\<rparr>)"
    using assms(1,2) p by (simp add: midiFSM_def MSProcess_keys_def midiSilence_eq)
  ultimately show ?thesis
    using s assms(1) by simp
qed

theorem rewind_only_silences_and_restarts_witness:
  "midiFSM (press [3]) MIDISeq demo_playing =
     Inr (MIDISeq, demo_playing\<lparr>Serial1 := silence, SMF := [GetNextEvent, Restart]\<rparr>) \<and>
   midiFSM (no_keys (press [3])) MIDISeq demo_playing =
     Inr (MIDISeq, demo_playing\<lparr>SMF := [GetNextEvent]\<rparr>)"
proof -
  have "midiFSM (no_keys (press [3])) MIDISeq demo_playing =
      Inr (MIDISeq, demo_playing\<lparr>SMF := [GetNextEvent]\<rparr>)"
    by (simp add: midiFSM_def MSProcess_play_def MSProcess_keys_def no_keys_def press_def
        quiet_def demo_playing_def demo_select_def demo_setup_def)
  then show ?thesis
    using rewind_only_silences_and_restarts [of demo_playing "press [3]" MIDISeq]
    by (simp add: press_def quiet_def demo_playing_def demo_select_def demo_setup_def)
qed

lemma silence_has_channel:
  assumes "ch < 16"
  shows "\<exists>pre post. silence = pre @ all_sound_off ch @ post"
proof -
  have "[0..<16] = [0..<ch] @ ch # [Suc ch..<16]"
    using assms upt_add_eq_append [of 0 ch "16 - ch"] by (simp add: upt_conv_Cons)
  then have "silence = concat (map all_sound_off [0..<ch]) @ all_sound_off ch @
      concat (map all_sound_off [Suc ch..<16])"
    by (simp add: silence_def)
  then show ?thesis by blast
qed

text \<open>
  C6: in \<open>MSProcess\<close>, with neither Rewind nor Stop pressed, a tick in which Pause (the
  up key) is pressed differs from the same tick with no key pressed in the
  \<^verbatim>\<open>pause(true)\<close> the sequencer receives and the all-sound-off messages appended to
  the serial output; a tick in which Resume (the down key) is pressed and Pause is not
  differs from it only in the \<^verbatim>\<open>pause(false)\<close> the sequencer receives: nothing is
  added to the serial output and nothing else changes. This holds in every \<open>MSProcess\<close>
  state, the one after a Pause included. The events the sequencer hands over in the
  tick are well formed.
\<close>

theorem pause_silences_resume_does_not:
  assumes "s_midiFSM m = MSProcess" and "\<not> BTN inp 3" and "\<not> BTN inp 2"
    and "list_all well_formed (SMF_events inp)"
  shows "\<exists>m0. midiFSM (no_keys inp) cur m = Inr (cur, m0) \<and>
           (BTN inp 0 \<longrightarrow>
              midiFSM inp cur m =
                Inr (cur, m0\<lparr>SMF := SMF m0 @ [Pause True], Serial1 := Serial1 m0 @ silence\<rparr>)) \<and>
           (\<not> BTN inp 0 \<and> BTN inp 1 \<longrightarrow>
              midiFSM inp cur m = Inr (cur, m0\<lparr>SMF := SMF m0 @ [Pause False]\<rparr>))"
proof -
  obtain m0 where p: "MSProcess_play inp m = Inr m0"
    using MSProcess_play_ok [OF assms(4)] by blast
  have "midiFSM (no_keys inp) cur m = Inr (cur, m0)"
    using assms(1) p by (simp add: midiFSM_def MSProcess_play_no_keys MSProcess_keys_none)
  moreover have "midiFSM inp cur m = MSProcess_keys inp cur m0"
    using assms(1) p by (simp add: midiFSM_def)
  ultimately show ?thesis
    using assms(2,3) by (simp add: MSProcess_keys_def midiSilence_eq)
qed

theorem pause_silences_resume_does_not_witness:
  "midiFSM (press [0]) MIDISeq demo_playing =
     Inr (MIDISeq, demo_playing\<lparr>SMF := [GetNextEvent, Pause True], Serial1 := silence\<rparr>) \<and>
   midiFSM (press [1]) MIDISeq
       (demo_playing\<lparr>SMF := [GetNextEvent, Pause True], Serial1 := silence\<rparr>) =
     Inr (MIDISeq, demo_playing\<lparr>SMF := [GetNextEvent, Pause True, GetNextEvent, Pause False],
                                 Serial1 := silence\<rparr>)"
proof -
  let ?paused = "demo_playing\<lparr>SMF := [GetNextEvent, Pause True], Serial1 := silence\<rparr>"
  have a: "midiFSM (no_keys (press [0])) MIDISeq demo_playing =
      Inr (MIDISeq, demo_playing\<lparr>SMF := [GetNextEvent]\<rparr>)"
    by (simp add: midiFSM_def MSProcess_play_def MSProcess_keys_def no_keys_def press_def
        quiet_def demo_playing_def demo_select_def demo_setup_def)
  have b: "midiFSM (no_keys (press [1])) MIDISeq ?paused =
      Inr (MIDISeq, ?paused\<lparr>SMF := [GetNextEvent, Pause True, GetNextEvent]\<rparr>)"
    by (simp add: midiFSM_def MSProcess_play_def MSProcess_keys_def no_keys_def press_def
        quiet_def demo_playing_def demo_select_def demo_setup_def)
  show ?thesis
    using pause_silences_resume_does_not [of demo_playing "press [0]" MIDISeq]
      pause_silences_resume_does_not [of ?paused "press [1]" MIDISeq] a b
    by (simp add: press_def quiet_def demo_playing_def demo_select_def demo_setup_def)
qed

text \<open>
  C4: from any machine playing in \<open>MSProcess\<close>, a tick in which Stop (the right key) is
  pressed and Rewind, which is scanned before it, is not, leaves the playback FSM in
  \<open>MSClose\<close>; the tick after it, again a playback tick, sends \<^verbatim>\<open>close()\<close> to the
  sequencer, appends the all-sound-off message of each of the 16 channels to the serial
  output and returns the mode \<open>LCDSeq\<close>. The navigation FSM has not run in between.
  The events the sequencer hands over in the first tick are well formed.
\<close>

theorem stop_closes_and_silences:
  assumes "s_loop m = MIDISeq" and "s_midiFSM m = MSProcess"
    and "\<not> BTN inp 3" and "BTN inp 2" and "list_all well_formed (SMF_events inp)"
  shows "\<exists>m1 m2. loop inp m = Inr m1 \<and> s_midiFSM m1 = MSClose \<and> s_loop m1 = MIDISeq \<and>
           loop inp' m1 = Inr m2 \<and> s_loop m2 = LCDSeq \<and> s_midiFSM m2 = MSBegin \<and>
           Serial1 m2 = Serial1 m1 @ silence \<and>
           (\<forall>ch<16. \<exists>pre post. Serial1 m2 = Serial1 m1 @ pre @ all_sound_off ch @ post) \<and>
           SMF m2 = SMF m1 @ [Close] \<and>
           s_lcdFSM m2 = s_lcdFSM m \<and> plIndex m2 = plIndex m"
proof -
  obtain m0 where p: "MSProcess_play inp m = Inr m0"
    and f: "s_lcdFSM m0 = s_lcdFSM m" "plIndex m0 = plIndex m"
    using MSProcess_play_ok [OF assms(5)] by blast
  let ?m1 = "m0\<lparr>s_midiFSM := MSClose, s_loop := MIDISeq\<rparr>"
  let ?m2 = "?m1\<lparr>SMF := SMF ?m1 @ [Close], Serial1 := Serial1 ?m1 @ silence,
                  s_midiFSM := MSBegin, s_loop := LCDSeq\<rparr>"
  have 1: "loop inp m = Inr ?m1"
    using assms(1-4) p by (simp add: loop_def midiFSM_def MSProcess_keys_def)
  have 2: "loop inp' ?m1 = Inr ?m2"
    by (simp add: loop_def midiFSM_def midiSilence_eq)
  have 3: "\<forall>ch<16. \<exists>pre post. Serial1 ?m2 = Serial1 ?m1 @ pre @ all_sound_off ch @ post"
    using silence_has_channel by simp
  show ?thesis
    using 1 2 3 f by (intro exI [of _ ?m1] exI [of _ ?m2]) simp
qed

theorem stop_closes_and_silences_witness:
  "loop (press [2]) demo_playing =
     Inr (demo_playing\<lparr>SMF := [GetNextEvent], s_midiFSM := MSClose\<rparr>) \<and>
   loop quiet (demo_playing\<lparr>SMF := [GetNextEvent], s_midiFSM := MSClose\<rparr>) =
     Inr (demo_playing\<lparr>SMF := [GetNextEvent, Close], Serial1 := silence,
                        s_midiFSM := MSBegin, s_loop := LCDSeq\<rparr>)"
proof -
  have a: "loop (press [2]) demo_playing =
      Inr (demo_playing\<lparr>SMF := [GetNextEvent], s_midiFSM := MSClose\<rparr>)"
    by (simp add: loop_def midiFSM_def MSProcess_play_def MSProcess_keys_def press_def
        quiet_def demo_playing_def demo_select_def demo_setup_def)
  have b: "loop quiet (demo_playing\<lparr>SMF := [GetNextEvent], s_midiFSM := MSClose\<rparr>) =
      Inr (demo_playing\<lparr>SMF := [GetNextEvent, Close], Serial1 := silence,
                         s_midiFSM := MSBegin, s_loop := LCDSeq\<rparr>)"
    by (simp add: loop_def midiFSM_def midiSilence_eq
        demo_playing_def demo_select_def demo_setup_def)
  show ?thesis
    using stop_closes_and_silences [of demo_playing "press [2]" quiet] a b
    by simp
qed

subsection \<open>Load failure\<close>

lemma clrEol_loop_eq: "clrEol_loop c lcd = lcd @ replicate (16 - unat c) (Write CHR '' '')"
proof (induction c lcd rule: clrEol_loop.induct)
  case (1 c lcd)
  show ?case
  proof (cases "c < LCD_COLS")
    case True
    then have lt: "unat c < 16"
      by (simp add: word_less_nat_alt LCD_COLS_def)
    then have "unat (c + 1) = unat c + 1"
      by (simp add: unat_word_ariths)
    then have "clrEol_loop (c + 1) (lcd @ [Write CHR '' '']) =
        (lcd @ [Write CHR '' '']) @ replicate (15 - unat c) (Write CHR '' '')"
      using 1 [OF True] by simp
    moreover have "16 - unat c = Suc (15 - unat c)"
      using lt by linarith
    ultimately show ?thesis
      using True by (subst clrEol_loop.simps) simp
  next
    case False
    then have "16 - unat c = 0"
      by (simp add: word_less_nat_alt LCD_COLS_def)
    then show ?thesis
      using False by (subst clrEol_loop.simps) simp
  qed
qed

lemma LCDMessage_from_column_0:
  assumes "length msg \<le> 16"
  shows "LCDMessage r 0 msg True lcd =
    lcd @ SetCursor 0 r # map Write msg @ replicate (16 - length msg) (Write CHR '' '')"
proof -
  have "unat (of_nat (length msg) :: byte) = length msg mod 256"
    by (simp add: unat_of_nat)
  then have "unat (of_nat (length msg) :: byte) = length msg"
    using assms by simp
  then show ?thesis
    by (simp add: LCDMessage_def clrEol_loop_eq Let_def del: clrEol_loop.simps)
qed

lemma digits_length: "0 < k \<Longrightarrow> n < 10 ^ k \<Longrightarrow> 1 \<le> length (digits n) \<and> length (digits n) \<le> k"
proof (induction k arbitrary: n)
  case 0
  then show ?case by simp
next
  case (Suc k)
  show ?case
  proof (cases "n < 10")
    case True
    then show ?thesis by simp
  next
    case False
    then have "0 < k"
      using Suc.prems(2) by (cases k) auto
    moreover have "n div 10 < 10 ^ k"
      using Suc.prems(2) by (simp add: less_mult_imp_div_less mult.commute)
    ultimately have "length (digits (n div 10)) \<le> k"
      using Suc.IH by blast
    then show ?thesis
      using False by (subst (1 2) digits.simps) simp
  qed
qed

lemma fmt_03d_length:
  assumes "- 9999 \<le> v" and "v \<le> 99999"
  shows "3 \<le> length (fmt_03d v) \<and> length (fmt_03d v) \<le> 5"
proof (cases "v < 0")
  case True
  then have "nat (- v) < 10 ^ 4"
    using assms(1) by simp
  then have "1 \<le> length (digits (nat (- v))) \<and> length (digits (nat (- v))) \<le> 4"
    by (intro digits_length) simp_all
  then show ?thesis
    using True by (auto simp: fmt_03d_def Let_def simp del: digits.simps)
next
  case False
  then have "nat v < 10 ^ 5"
    using assms(2) by simp
  then have "1 \<le> length (digits (nat v)) \<and> length (digits (nat v)) \<le> 5"
    by (intro digits_length) simp_all
  then show ?thesis
    using False by (auto simp: fmt_03d_def Let_def simp del: digits.simps)
qed

lemma digits_below_1000:
  assumes "n < 1000"
  shows "replicate (3 - length (digits n)) CHR ''0'' @ digits n =
    [''0123456789'' ! (n div 100), ''0123456789'' ! (n div 10 mod 10), ''0123456789'' ! (n mod 10)]"
proof -
  consider "n < 10" | "10 \<le> n" "n < 100" | "100 \<le> n"
    by linarith
  then show ?thesis
  proof cases
    case 1
    then show ?thesis
      by (simp add: numeral_2_eq_2)
  next
    case 2
    then have "n div 10 < 10"
      by simp
    then have "digits (n div 10) = [''0123456789'' ! (n div 10)]"
      by simp
    moreover have "n div 100 = 0" "n div 10 mod 10 = n div 10"
      using 2 by simp_all
    ultimately show ?thesis
      using 2 by (subst (1 2) digits.simps) simp
  next
    case 3
    have d: "n div 10 div 10 = n div 100"
      by (simp add: div_mult2_eq)
    have "n div 100 < 10"
      using assms by simp
    then have "digits (n div 100) = [''0123456789'' ! (n div 100)]"
      by simp
    moreover have "\<not> n div 10 < 10"
      using 3 by simp
    ultimately have "digits (n div 10) =
        [''0123456789'' ! (n div 100), ''0123456789'' ! (n div 10 mod 10)]"
      using d by (subst digits.simps) simp
    then show ?thesis
      using 3 by (subst (1 2) digits.simps) simp
  qed
qed

lemma fmt_03d_below_1000:
  assumes "0 \<le> v" and "v < 1000"
  shows "fmt_03d v =
    [''0123456789'' ! (nat v div 100), ''0123456789'' ! (nat v div 10 mod 10),
     ''0123456789'' ! (nat v mod 10)]"
proof -
  have "nat v < 1000"
    using assms by simp
  then show ?thesis
    using assms(1) digits_below_1000 [of "nat v"] by (simp add: fmt_03d_def Let_def)
qed


text \<open>
  C3: when \<^verbatim>\<open>SMF.load\<close> returns a code other than \<^verbatim>\<open>E_OK\<close> whose text fits the
  buffer \<^verbatim>\<open>aErr\<close> (any code from -9999 to 99999), the tick in \<open>MSLoad\<close> returns (it
  does not halt), moves the display cursor to the start of row 1, writes there
  \<^verbatim>\<open>SMF error\<close>, a blank and the code in at least three characters (for a code from 0
  to 999 its three decimal digits) and fills the row with blanks, waits two seconds and
  leaves the FSM in \<open>MSClose\<close>, not in \<open>MSProcess\<close>; the next tick leaves the display
  as it is and returns the mode \<open>LCDSeq\<close>. Over both ticks the sequencer receives
  \<^verbatim>\<open>load\<close> and \<^verbatim>\<open>close\<close> and never \<^verbatim>\<open>getNextEvent\<close>.
\<close>

theorem load_failure_closes_without_playing:
  assumes "s_loop m = MIDISeq" and "s_midiFSM m = MSLoad" and "SMF_load inp \<noteq> E_OK"
    and "- 9999 \<le> SMF_load inp" and "SMF_load inp \<le> 99999"
  shows "\<exists>m1 m2 code.
           loop inp m = Inr m1 \<and> s_midiFSM m1 = MSClose \<and> s_loop m1 = MIDISeq \<and>
           code = fmt_03d (SMF_load inp) \<and> 3 \<le> length code \<and> length code \<le> 5 \<and>
           (0 \<le> SMF_load inp \<and> SMF_load inp < 1000 \<longrightarrow>
              code = [''0123456789'' ! (nat (SMF_load inp) div 100),
                      ''0123456789'' ! (nat (SMF_load inp) div 10 mod 10),
                      ''0123456789'' ! (nat (SMF_load inp) mod 10)]) \<and>
           LCD m1 = LCD m @ SetCursor 0 1 # map Write (''SMF error '' @ code) @
                      replicate (6 - length code) (Write CHR '' '') \<and>
           delayed m1 = delayed m + 2000 \<and> Serial1 m1 = Serial1 m \<and>
           loop inp' m1 = Inr m2 \<and> s_midiFSM m2 = MSBegin \<and> s_loop m2 = LCDSeq \<and>
           LCD m2 = LCD m1 \<and>
           SMF m2 = SMF m @ [Load (c_str (fname m)), Close] \<and>
           GetNextEvent \<notin> set (drop (length (SMF m)) (SMF m2))"
proof -
  let ?code = "fmt_03d (SMF_load inp)"
  let ?shown = "LCD m @ SetCursor 0 1 # map Write (''SMF error '' @ ?code) @
      replicate (6 - length ?code) (Write CHR '' '')"
  let ?m1 = "m\<lparr>SMF := SMF m @ [Load (c_str (fname m))], LCD := ?shown,
                delayed := delayed m + 2000, s_midiFSM := MSClose, s_loop := MIDISeq\<rparr>"
  let ?m2 = "?m1\<lparr>SMF := SMF ?m1 @ [Close], Serial1 := Serial1 ?m1 @ silence,
                  s_midiFSM := MSBegin, s_loop := LCDSeq\<rparr>"
  have len: "3 \<le> length ?code \<and> length ?code \<le> 5"
    using assms(4,5) by (rule fmt_03d_length)
  then have fits: "\<not> 16 \<le> length (''SMF error '' @ ?code)"
    by simp
  have "LCDMessage 1 0 (''SMF error '' @ ?code) True (LCD m) =
      LCD m @ SetCursor 0 1 # map Write (''SMF error '' @ ?code) @
      replicate (16 - length (''SMF error '' @ ?code)) (Write CHR '' '')"
    using len by (intro LCDMessage_from_column_0) simp
  then have shown: "LCDMessage 1 0 (''SMF error '' @ ?code) True (LCD m) = ?shown"
    by simp
  have digits3: "0 \<le> SMF_load inp \<and> SMF_load inp < 1000 \<longrightarrow>
      ?code = [''0123456789'' ! (nat (SMF_load inp) div 100),
               ''0123456789'' ! (nat (SMF_load inp) div 10 mod 10),
               ''0123456789'' ! (nat (SMF_load inp) mod 10)]"
    using fmt_03d_below_1000 [of "SMF_load inp"] by blast
  have "midiFSM inp MIDISeq m =
      Inr (MIDISeq, m\<lparr>SMF := SMF m @ [Load (c_str (fname m))], LCD := ?shown,
                       delayed := delayed m + 2000, s_midiFSM := MSClose\<rparr>)"
    using assms(2,3) fits shown
    by (simp add: midiFSM_def LCDErrMessage_def Let_def del: append.simps)
  then have 1: "loop inp m = Inr ?m1"
    using assms(1) by (simp add: loop_def)
  have 2: "loop inp' ?m1 = Inr ?m2"
    by (simp add: loop_def midiFSM_def midiSilence_eq)
  have "loop inp m = Inr ?m1 \<and> s_midiFSM ?m1 = MSClose \<and> s_loop ?m1 = MIDISeq \<and>
      ?code = fmt_03d (SMF_load inp) \<and> 3 \<le> length ?code \<and> length ?code \<le> 5 \<and>
      (0 \<le> SMF_load inp \<and> SMF_load inp < 1000 \<longrightarrow>
         ?code = [''0123456789'' ! (nat (SMF_load inp) div 100),
                  ''0123456789'' ! (nat (SMF_load inp) div 10 mod 10),
                  ''0123456789'' ! (nat (SMF_load inp) mod 10)]) \<and>
      LCD ?m1 = LCD m @ SetCursor 0 1 # map Write (''SMF error '' @ ?code) @
                  replicate (6 - length ?code) (Write CHR '' '') \<and>
      delayed ?m1 = delayed m + 2000 \<and> Serial1 ?m1 = Serial1 m \<and>
      loop inp' ?m1 = Inr ?m2 \<and> s_midiFSM ?m2 = MSBegin \<and> s_loop ?m2 = LCDSeq \<and>
      LCD ?m2 = LCD ?m1 \<and>
      SMF ?m2 = SMF m @ [Load (c_str (fname m)), Close] \<and>
      GetNextEvent \<notin> set (drop (length (SMF m)) (SMF ?m2))"
    using 1 2 len digits3 by (intro conjI) simp_all
  then show ?thesis
    by blast
qed

lemma fmt_03d_2: "fmt_03d 2 = ''002''"
  by (simp add: fmt_03d_def numeral_2_eq_2)

theorem load_failure_closes_without_playing_witness:
  "loop (quiet\<lparr>SMF_load := 2\<rparr>) (demo_playing\<lparr>s_midiFSM := MSLoad\<rparr>) =
     Inr (demo_playing
            \<lparr>SMF := [Load ''A.MID''],
             LCD := LCD demo_playing @ SetCursor 0 1 # map Write ''SMF error 002   '',
             delayed := 2000, s_midiFSM := MSClose\<rparr>) \<and>
   loop quiet
       (demo_playing
          \<lparr>SMF := [Load ''A.MID''],
           LCD := LCD demo_playing @ SetCursor 0 1 # map Write ''SMF error 002   '',
           delayed := 2000, s_midiFSM := MSClose\<rparr>) =
     Inr (demo_playing
            \<lparr>SMF := [Load ''A.MID'', Close], Serial1 := silence,
             LCD := LCD demo_playing @ SetCursor 0 1 # map Write ''SMF error 002   '',
             delayed := 2000, s_midiFSM := MSBegin, s_loop := LCDSeq\<rparr>)"
proof -
  let ?m = "demo_playing\<lparr>s_midiFSM := MSLoad\<rparr>" and ?inp = "quiet\<lparr>SMF_load := 2\<rparr>"
  have pre: "s_loop ?m = MIDISeq" "s_midiFSM ?m = MSLoad" "SMF_load ?inp \<noteq> E_OK"
    "- 9999 \<le> SMF_load ?inp" "SMF_load ?inp \<le> 99999"
    by (simp_all add: demo_playing_def demo_select_def demo_setup_def quiet_def E_OK_def)
  have name: "c_str (fname ?m) = ''A.MID''" "SMF ?m = []" "delayed ?m = 0" "Serial1 ?m = []"
    by (simp_all add: demo_playing_def demo_select_def demo_setup_def c_str_def)
  have code: "fmt_03d (SMF_load ?inp) = ''002''"
    by (simp add: fmt_03d_2)
  obtain m1 m2 where 1: "loop ?inp ?m = Inr m1" and 2: "loop quiet m1 = Inr m2"
    and lcd: "LCD m1 = LCD ?m @ SetCursor 0 1 # map Write (''SMF error '' @ ''002'') @
        replicate (6 - length ''002'') (Write CHR '' '')"
    using load_failure_closes_without_playing [OF pre, of quiet] code by auto
  have a: "loop ?inp ?m =
      Inr (demo_playing
            \<lparr>SMF := [Load ''A.MID''],
             LCD := LCD demo_playing @ SetCursor 0 1 # map Write ''SMF error 002   '',
             delayed := 2000, s_midiFSM := MSClose\<rparr>)"
    using name
    by (simp add: loop_def midiFSM_def LCDErrMessage_def Let_def LCDMessage_from_column_0
        fmt_03d_2 numeral_3_eq_3 quiet_def E_OK_def demo_playing_def)
  have b: "loop quiet
       (demo_playing
          \<lparr>SMF := [Load ''A.MID''],
           LCD := LCD demo_playing @ SetCursor 0 1 # map Write ''SMF error 002   '',
           delayed := 2000, s_midiFSM := MSClose\<rparr>) =
     Inr (demo_playing
            \<lparr>SMF := [Load ''A.MID'', Close], Serial1 := silence,
             LCD := LCD demo_playing @ SetCursor 0 1 # map Write ''SMF error 002   '',
             delayed := 2000, s_midiFSM := MSBegin, s_loop := LCDSeq\<rparr>)"
    by (simp add: loop_def midiFSM_def midiSilence_eq
        demo_playing_def demo_select_def demo_setup_def)
  show ?thesis
    using 1 2 lcd a b by simp
qed

text \<open>
  A code whose text does not fit: \<^verbatim>\<open>SMF error -10000\<close> has 16 characters, and
  \<^verbatim>\<open>sprintf\<close> writes the terminating NUL past the end of \<^verbatim>\<open>aErr\<close>.
\<close>

lemma load_code_overruns_aErr:
  "midiFSM (quiet\<lparr>SMF_load := - 10000\<rparr>) MIDISeq (demo_playing\<lparr>s_midiFSM := MSLoad\<rparr>) =
     Inl OutOfBounds"
  by (simp add: midiFSM_def Let_def fmt_03d_def quiet_def E_OK_def demo_playing_def)

end
